theory Spec2Isabelle
  imports Complex_Main "HOL-Library.Multiset" "HOL-Library.AList"
begin

section \<open>Time values\<close>

text \<open>
  A JavaScript \<^verbatim>\<open>Date\<close> holds a time value: an integral number of milliseconds since
  1970-01-01T00:00:00Z. Time values are modelled as \<^typ>\<open>int\<close>. Two things are outside the
  model: the Invalid Date (time value NaN) and the \<^verbatim>\<open>TimeClip\<close> range limit of
  8.64e15 ms. Local time is modelled by a fixed offset \<open>tz\<close> (milliseconds east of UTC), as
  for the zone \<^verbatim>\<open>+0900\<close> of the input data; daylight-saving transitions are not modelled.
  Numbers that are not integral (\<^verbatim>\<open>duration\<close>, \<^verbatim>\<open>stayMinutes\<close>, hours, percentages) are
  exact rationals: the rounding error of binary floating point, NaN and the infinities are
  not modelled. Console output is left out.
\<close>

definition Day :: "int \<Rightarrow> int" where
  "Day t = t div 86400000"

definition HourFromTime :: "int \<Rightarrow> int" where
  "HourFromTime t = (t div 3600000) mod 24"

definition MakeTime :: "int \<Rightarrow> int \<Rightarrow> int \<Rightarrow> int \<Rightarrow> int" where
  "MakeTime h m s milli = h * 3600000 + m * 60000 + s * 1000 + milli"

definition MakeDate :: "int \<Rightarrow> int \<Rightarrow> int" where
  "MakeDate day time = day * 86400000 + time"

definition LocalTime :: "int \<Rightarrow> int \<Rightarrow> int" where
  "LocalTime tz t = t + tz"

definition UTC :: "int \<Rightarrow> int \<Rightarrow> int" where
  "UTC tz t = t - tz"

definition getHours :: "int \<Rightarrow> int \<Rightarrow> int" where
  "getHours tz t = HourFromTime (LocalTime tz t)"

text \<open>\<^verbatim>\<open>d.setHours(h, 0, 0, 0)\<close>: keeps the local day of \<open>d\<close> and replaces the time within
  the day; an hour of 24 carries into the next day through \<^const>\<open>MakeDate\<close>.\<close>

definition setHours :: "int \<Rightarrow> int \<Rightarrow> int \<Rightarrow> int" where
  "setHours tz t h = UTC tz (MakeDate (Day (LocalTime tz t)) (MakeTime h 0 0 0))"

text \<open>\<^verbatim>\<open>d.toISOString().split('T')[0]\<close> is the UTC calendar date of \<open>d\<close>. It is modelled by
  the UTC day number, of which the date string is an injective rendering.\<close>

definition isoDate :: "int \<Rightarrow> int" where
  "isoDate t = Day t"

section \<open>Interval decomposition: generateTimeSlots\<close>

record slot =
  date :: int
  hour :: int
  dateHour :: "int \<times> int"
  duration :: rat
  checkin :: int
  checkout :: int

text \<open>The body of the \<^verbatim>\<open>while\<close> loop, with the array \<^verbatim>\<open>slots\<close> as an accumulator.\<close>

function generateTimeSlots_loop :: "int \<Rightarrow> int \<Rightarrow> int \<Rightarrow> slot list \<Rightarrow> slot list" where
  "generateTimeSlots_loop tz current co slots =
     (if current < co then
        (let slotEnd = setHours tz current (getHours tz current + 1);
             actualEnd = (if slotEnd > co then co else slotEnd);
             dur = (of_int (actualEnd - current) :: rat) / of_int (1000 * 60);
             slots' = (if dur > 0 then
                         slots @ [\<lparr> date = isoDate current,
                                    hour = getHours tz current,
                                    dateHour = (isoDate current, getHours tz current),
                                    duration = dur,
                                    checkin = current,
                                    checkout = actualEnd \<rparr>]
                       else slots)
         in generateTimeSlots_loop tz slotEnd co slots')
      else slots)"
  by pat_completeness auto
termination
proof (relation "measure (\<lambda>(tz, current, co, slots). nat (co - current))")
  show "wf (measure (\<lambda>(tz, current, co, slots). nat (co - current)))" by simp
next
  fix tz current co :: int and slots :: "slot list" and slotEnd actualEnd :: int
    and dur :: rat and slots' :: "slot list"
  assume lt: "current < co"
    and se: "slotEnd = setHours tz current (getHours tz current + 1)"
  define x where "x = current + tz"
  have d: "x div 86400000 = (x div 3600000) div 24"
    using zdiv_zmult2_eq [of 24 x 3600000] by simp
  have "slotEnd = ((x div 3600000) div 24) * 86400000
                    + ((x div 3600000) mod 24 + 1) * 3600000 - tz"
    by (simp add: se setHours_def getHours_def HourFromTime_def LocalTime_def UTC_def
        MakeDate_def MakeTime_def Day_def x_def [symmetric] d)
  also have "\<dots> = (x div 3600000 + 1) * 3600000 - tz"
  proof -
    define q where "q = x div 3600000"
    define a b where "a = q div 24" and "b = q mod 24"
    have e: "q = a * 24 + b" by (simp add: a_def b_def)
    have "a * 86400000 + (b + 1) * 3600000 = (q + 1) * 3600000"
      unfolding e by (simp add: algebra_simps)
    then show ?thesis by (simp add: q_def a_def b_def)
  qed
  finally have "slotEnd > current"
    using div_mult_mod_eq [of x 3600000] pos_mod_bound [of 3600000 x]
    by (simp add: x_def algebra_simps)
  with lt show "((tz, slotEnd, co, slots'), (tz, current, co, slots))
      \<in> measure (\<lambda>(tz, current, co, slots). nat (co - current))"
    by simp
qed

definition generateTimeSlots :: "int \<Rightarrow> int \<Rightarrow> int \<Rightarrow> slot list" where
  "generateTimeSlots tz ci co = generateTimeSlots_loop tz ci co []"

declare generateTimeSlots_loop.simps [simp del]

text \<open>Properties of a slot sequence, used to state the contract of the decomposer.
  \<open>contiguous a b ss\<close>: the slots are non-empty intervals, the first starts at \<open>a\<close>,
  each starts where its predecessor ends, and the last ends at \<open>b\<close>.\<close>

fun contiguous :: "int \<Rightarrow> int \<Rightarrow> slot list \<Rightarrow> bool" where
  "contiguous a b [] = (a = b)"
| "contiguous a b (s # ss) = (checkin s = a \<and> a < checkout s \<and> contiguous (checkout s) b ss)"

definition covers :: "int \<Rightarrow> slot \<Rightarrow> bool" where
  "covers t s = (checkin s \<le> t \<and> t < checkout s)"

text \<open>The local clock hour (counted from the epoch) that an instant falls in.\<close>

definition clockHour :: "int \<Rightarrow> int \<Rightarrow> int" where
  "clockHour tz t = LocalTime tz t div 3600000"


section \<open>Occupancy aggregation: calculateHourlyOccupancy\<close>

text \<open>
  A CSV row as \<^verbatim>\<open>calculateHourlyOccupancy\<close> reads it, after \<^verbatim>\<open>parseDateTime\<close> and
  \<^verbatim>\<open>parseStayTime\<close> have been applied to its fields (both parsers are outside the model):
  \<open>customer\<close> is the customer-name column, \<open>checkinDateTime\<close> the parsed check-in
  column, \<open>checkoutDateTime\<close> the parsed check-out column (\<open>None\<close> when the column is
  empty or missing, where the source binds \<^verbatim>\<open>null\<close>), \<open>stayTime\<close> the stay-duration
  column in minutes.
\<close>

record csv_record =
  customer :: string
  checkinDateTime :: int
  checkoutDateTime :: "int option"
  stayTime :: rat

text \<open>An entry of \<^verbatim>\<open>allTimeSlots\<close>: the slot spread together with two more fields.\<close>

record tagged_slot = slot +
  customerName :: string
  originalStayMinutes :: rat

text \<open>A value of \<^verbatim>\<open>hourlyOccupancy\<close>; an entry of \<^verbatim>\<open>users\<close> is the pair of its
  \<^verbatim>\<open>name\<close> and \<^verbatim>\<open>duration\<close> fields.\<close>

record bucket =
  bcount :: int
  totalMinutes :: rat
  users :: "(string \<times> rat) list"

text \<open>A value of \<^verbatim>\<open>dailyStats\<close>. The field \<^verbatim>\<open>uniqueUsers\<close> is a \<^verbatim>\<open>Set\<close> while the
  records are processed (a duplicate-free list in insertion order) and is replaced by its
  size before the function returns, hence the type parameter.\<close>

record 'u daily =
  dTotalHours :: rat
  dTotalSessions :: int
  dUniqueUsers :: 'u

text \<open>The three accumulators. The two objects keyed by strings are association lists in
  insertion order, which is the order \<^verbatim>\<open>Object.keys\<close> and \<^verbatim>\<open>Object.values\<close> enumerate.
  The key \<^verbatim>\<open>dateHour\<close> is the pair of the UTC date and the local hour.\<close>

record 'u occupancy =
  hourlyOccupancy :: "((int \<times> int) \<times> bucket) list"
  dailyStats :: "(int \<times> 'u daily) list"
  allTimeSlots :: "tagged_slot list"

datatype js_error = TypeError

definition emptyOccupancy :: "(string list) occupancy" where
  "emptyOccupancy = \<lparr> hourlyOccupancy = [], dailyStats = [], allTimeSlots = [] \<rparr>"

definition tagSlot :: "string \<Rightarrow> rat \<Rightarrow> slot \<Rightarrow> tagged_slot" where
  "tagSlot name stay s =
     \<lparr> date = date s, hour = hour s, dateHour = dateHour s, duration = duration s,
       checkin = checkin s, checkout = checkout s,
       customerName = name, originalStayMinutes = stay \<rparr>"

text \<open>The callback of \<^verbatim>\<open>timeSlots.forEach\<close>: create the bucket when the key is new, then
  count the slot in it.\<close>

definition countSlot ::
    "string \<Rightarrow> ((int \<times> int) \<times> bucket) list \<Rightarrow> slot \<Rightarrow> ((int \<times> int) \<times> bucket) list" where
  "countSlot name h s =
     (let h1 = (if map_of h (dateHour s) = None
                then AList.update (dateHour s) \<lparr> bcount = 0, totalMinutes = 0, users = [] \<rparr> h
                else h)
      in AList.map_entry (dateHour s)
           (\<lambda>b. b\<lparr> bcount := bcount b + 1,
                    totalMinutes := totalMinutes b + duration s,
                    users := users b @ [(name, duration s)] \<rparr>) h1)"

text \<open>\<^verbatim>\<open>Set.prototype.add\<close>.\<close>

definition setAdd :: "'a \<Rightarrow> 'a list \<Rightarrow> 'a list" where
  "setAdd x xs = (if x \<in> set xs then xs else xs @ [x])"

definition countDay ::
    "int \<Rightarrow> string \<Rightarrow> rat \<Rightarrow> (int \<times> (string list) daily) list \<Rightarrow> (int \<times> (string list) daily) list" where
  "countDay d name stay ds =
     (let ds1 = (if map_of ds d = None
                 then AList.update d \<lparr> dTotalHours = 0, dTotalSessions = 0, dUniqueUsers = [] \<rparr> ds
                 else ds)
      in AList.map_entry d
           (\<lambda>x. x\<lparr> dTotalHours := dTotalHours x + stay / 60,
                    dTotalSessions := dTotalSessions x + 1,
                    dUniqueUsers := setAdd name (dUniqueUsers x) \<rparr>) ds1)"

text \<open>
  The body of the \<^verbatim>\<open>try\<close> block for one record. \<^verbatim>\<open>checkout\<close> is declared with
  \<^verbatim>\<open>const\<close>, so the assignment in the first \<^verbatim>\<open>if\<close> raises a TypeError when it is
  reached; nothing has been written to the accumulators at that point.
\<close>

definition recordBody ::
    "int \<Rightarrow> (string list) occupancy \<Rightarrow> csv_record \<Rightarrow> js_error + (string list) occupancy" where
  "recordBody tz st r =
     (let ci = checkinDateTime r;
          co = checkoutDateTime r;
          stayMinutes = stayTime r
      in if co = None \<and> stayMinutes > 0 then Inl TypeError
         else (case co of
                 None \<Rightarrow> Inr st
               | Some c \<Rightarrow>
                   if stayMinutes \<le> 0 then Inr st
                   else
                     (let timeSlots = generateTimeSlots tz ci c
                      in Inr \<lparr> hourlyOccupancy =
                                  foldl (countSlot (customer r)) (hourlyOccupancy st) timeSlots,
                                dailyStats =
                                  countDay (isoDate ci) (customer r) stayMinutes (dailyStats st),
                                allTimeSlots =
                                  allTimeSlots st @ map (tagSlot (customer r) stayMinutes) timeSlots \<rparr>)))"

text \<open>The \<^verbatim>\<open>catch\<close> clause logs a warning and the loop goes on with the next record.\<close>

definition processRecord ::
    "int \<Rightarrow> (string list) occupancy \<Rightarrow> csv_record \<Rightarrow> (string list) occupancy" where
  "processRecord tz st r = (case recordBody tz st r of Inl e \<Rightarrow> st | Inr st' \<Rightarrow> st')"

definition sizeOfUsers :: "(string list) daily \<Rightarrow> int daily" where
  "sizeOfUsers x = \<lparr> dTotalHours = dTotalHours x, dTotalSessions = dTotalSessions x,
                     dUniqueUsers = int (length (dUniqueUsers x)) \<rparr>"

definition calculateHourlyOccupancy :: "int \<Rightarrow> csv_record list \<Rightarrow> int occupancy" where
  "calculateHourlyOccupancy tz records =
     (let st = foldl (processRecord tz) emptyOccupancy records
      in \<lparr> hourlyOccupancy = hourlyOccupancy st,
           dailyStats = map (\<lambda>(d, x). (d, sizeOfUsers x)) (dailyStats st),
           allTimeSlots = allTimeSlots st \<rparr>)"

text \<open>The bucket invariant, and the comparison of buckets up to the order of their member
  lists.\<close>

definition bucket_ok :: "bucket \<Rightarrow> bool" where
  "bucket_ok b = (bcount b = int (length (users b))
                  \<and> totalMinutes b = sum_list (map snd (users b))
                  \<and> 1 \<le> bcount b)"


text \<open>Two visits used in the examples, both with check-in 2024-03-29 23:33:42 +0900: one
  checks out 90 minutes later, the other 19 minutes 38 seconds later.\<close>

definition visitA :: csv_record where
  "visitA = \<lparr> customer = ''a'', checkinDateTime = 1711722822000,
              checkoutDateTime = Some 1711728222000, stayTime = 90 \<rparr>"

definition visitC :: csv_record where
  "visitC = \<lparr> customer = ''c'', checkinDateTime = 1711722822000,
              checkoutDateTime = Some 1711724000000, stayTime = 20 \<rparr>"

section \<open>Statistics summary: calculateTotalStats\<close>

record totalStats =
  totalHours :: rat
  manHours :: rat
  uniqueUsers :: int
  totalSessions :: int
  peakOccupancy :: int
  averageOccupancy :: rat
  activeDays :: int

text \<open>\<^verbatim>\<open>Math.round\<close> rounds to the nearest integer, a tie towards plus infinity.\<close>

definition Math_round :: "rat \<Rightarrow> int" where
  "Math_round x = \<lfloor>x + 1 / 2\<rfloor>"

definition calculateTotalStats :: "int occupancy \<Rightarrow> csv_record list \<Rightarrow> totalStats" where
  "calculateTotalStats monthData records =
     (let hourly = map snd (hourlyOccupancy monthData);
          days = map snd (dailyStats monthData);
          totalHours = foldl (\<lambda>sum day. sum + dTotalHours day) 0 days;
          manHours = int (length records);
          uniqueUsers = int (length (remdups (map customer records)));
          totalSessions = int (length records);
          peakOccupancy = fold max (map bcount hourly) 0;
          averageOccupancy =
            (if length (hourlyOccupancy monthData) > 0
             then of_int (foldl (\<lambda>sum h. sum + bcount h) 0 hourly)
                    / of_nat (length (hourlyOccupancy monthData))
             else 0)
      in \<lparr> totalHours = of_int (Math_round (totalHours * 10)) / 10,
           manHours = of_int (Math_round (of_int manHours * 10)) / 10,
           uniqueUsers = uniqueUsers,
           totalSessions = totalSessions,
           peakOccupancy = peakOccupancy,
           averageOccupancy = of_int (Math_round (averageOccupancy * 10)) / 10,
           activeDays = int (length (dailyStats monthData)) \<rparr>)"

text \<open>The mean of the bucket counts over the buckets present, and what it means for \<open>r\<close>
  to be \<open>x\<close> rounded to one decimal place.\<close>

definition meanCount :: "((int \<times> int) \<times> bucket) list \<Rightarrow> rat" where
  "meanCount h = of_int (sum_list (map (bcount \<circ> snd) h)) / of_nat (length h)"

definition roundedToTenth :: "rat \<Rightarrow> rat \<Rightarrow> bool" where
  "roundedToTenth r x = (r * 10 = of_int \<lfloor>r * 10\<rfloor> \<and> \<bar>r - x\<bar> \<le> 1 / 20)"

section \<open>Period comparison: calculateComparison\<close>

text \<open>Decimal digits of a natural number.\<close>

fun showNat :: "nat \<Rightarrow> string" where
  "showNat n = (if n < 10 then [''0123456789'' ! n]
                else showNat (n div 10) @ [''0123456789'' ! (n mod 10)])"

declare showNat.simps [simp del]

text \<open>
  The string a template literal gives for a number that has at most one decimal digit
  (every number formatted here is an integer or a \<^verbatim>\<open>Math.round(x * 10) / 10\<close>): an optional
  minus sign, the integer part, and the decimal digit when it is not zero. Negative zero
  prints as \<^verbatim>\<open>0\<close>. The exponent notation of magnitudes from 1e21 on is not modelled.
\<close>

definition numberToString :: "rat \<Rightarrow> string" where
  "numberToString x =
     (let k = \<lfloor>x * 10\<rfloor>; a = nat \<bar>k\<bar>
      in (if k < 0 then ''-'' else [])
         @ showNat (a div 10)
         @ (if a mod 10 = 0 then [] else ''.'' @ showNat (a mod 10)))"

text \<open>The literal \<^verbatim>\<open>'+\<infinity>%'\<close>, the infinity sign (U+221E) as its three UTF-8 bytes.\<close>

definition plusInfinityPercent :: string where
  "plusInfinityPercent = [CHR ''+'', CHR 0xE2, CHR 0x88, CHR 0x9E, CHR ''%'']"

definition calculateChange :: "rat \<Rightarrow> rat \<Rightarrow> string" where
  "calculateChange cur prev =
     (if prev = 0 then (if cur > 0 then plusInfinityPercent else ''0%'')
      else (let change = ((cur - prev) / prev) * 100
            in (if change \<ge> 0 then ''+'' else [])
               @ numberToString (of_int (Math_round (change * 10)) / 10) @ ''%''))"

definition calculateDifference :: "int \<Rightarrow> int \<Rightarrow> string" where
  "calculateDifference cur prev =
     (let diff = cur - prev
      in (if diff \<ge> 0 then ''+'' else []) @ numberToString (of_int diff))"

record comparison =
  totalHoursChange :: string
  manHoursChange :: string
  uniqueUsersChange :: string
  totalSessionsChange :: string
  peakOccupancyChange :: string
  averageOccupancyChange :: string

definition calculateComparison :: "totalStats \<Rightarrow> totalStats \<Rightarrow> comparison" where
  "calculateComparison current previous =
     \<lparr> totalHoursChange = calculateChange (totalHours current) (totalHours previous),
       manHoursChange = calculateChange (manHours current) (manHours previous),
       uniqueUsersChange = calculateDifference (uniqueUsers current) (uniqueUsers previous),
       totalSessionsChange = calculateDifference (totalSessions current) (totalSessions previous),
       peakOccupancyChange = calculateDifference (peakOccupancy current) (peakOccupancy previous),
       averageOccupancyChange =
         calculateChange (averageOccupancy current) (averageOccupancy previous) \<rparr>"


section \<open>Abstractions used for the order-independence of the aggregation\<close>











section \<open>The calendar of ECMAScript\<close>

text \<open>The day and time arithmetic of the \<^verbatim>\<open>Date\<close> object (ECMA-262, section "Date
  Objects"), on day numbers and time values.\<close>

definition InLeapYear :: "int \<Rightarrow> bool" where
  "InLeapYear y = ((y mod 4 = 0 \<and> y mod 100 \<noteq> 0) \<or> y mod 400 = 0)"

definition DaysInYear :: "int \<Rightarrow> int" where
  "DaysInYear y = (if InLeapYear y then 366 else 365)"

definition DayFromYear :: "int \<Rightarrow> int" where
  "DayFromYear y = 365 * (y - 1970) + (y - 1969) div 4 - (y - 1901) div 100 + (y - 1601) div 400"

text \<open>The largest year \<open>y\<close> with \<open>DayFromYear y \<le> z\<close>, computed from an estimate that
  is off by at most one year.\<close>

definition YearFromDay :: "int \<Rightarrow> int" where
  "YearFromDay z =
     (let y = 1970 + (z * 400) div 146097
      in if z < DayFromYear y then y - 1
         else if DayFromYear (y + 1) \<le> z then y + 1
         else y)"

definition DayWithinYear :: "int \<Rightarrow> int" where
  "DayWithinYear z = z - DayFromYear (YearFromDay z)"

text \<open>Month (0 to 11) and day of the month (1 to 31) of the day \<open>w\<close> within a year,
  \<open>l\<close> being 1 in a leap year and 0 otherwise.\<close>

definition monthOfDay :: "int \<Rightarrow> int \<Rightarrow> int" where
  "monthOfDay l w =
     (if w < 31 then 0 else if w < 59 + l then 1 else if w < 90 + l then 2
      else if w < 120 + l then 3 else if w < 151 + l then 4 else if w < 181 + l then 5
      else if w < 212 + l then 6 else if w < 243 + l then 7 else if w < 273 + l then 8
      else if w < 304 + l then 9 else if w < 334 + l then 10 else 11)"

definition daysBeforeMonth :: "int \<Rightarrow> int \<Rightarrow> int" where
  "daysBeforeMonth l m =
     (if m = 0 then 0 else if m = 1 then 31 else if m = 2 then 59 + l
      else if m = 3 then 90 + l else if m = 4 then 120 + l else if m = 5 then 151 + l
      else if m = 6 then 181 + l else if m = 7 then 212 + l else if m = 8 then 243 + l
      else if m = 9 then 273 + l else if m = 10 then 304 + l else 334 + l)"

definition daysInMonth :: "int \<Rightarrow> int \<Rightarrow> int" where
  "daysInMonth l m =
     (if m = 1 then 28 + l
      else if m = 3 \<or> m = 5 \<or> m = 8 \<or> m = 10 then 30 else 31)"

definition leapDay :: "int \<Rightarrow> int" where
  "leapDay y = (if InLeapYear y then 1 else 0)"

definition MonthFromDay :: "int \<Rightarrow> int" where
  "MonthFromDay z = monthOfDay (leapDay (YearFromDay z)) (DayWithinYear z)"

definition DateFromDay :: "int \<Rightarrow> int" where
  "DateFromDay z =
     DayWithinYear z - daysBeforeMonth (leapDay (YearFromDay z)) (MonthFromDay z) + 1"

text \<open>\<^verbatim>\<open>MakeDay\<close>: the day number of the first of the month (the month may lie outside
  0 to 11 and then carries into the year), plus the day of the month minus one, which may run
  past the end of the month.\<close>

definition MakeDay :: "int \<Rightarrow> int \<Rightarrow> int \<Rightarrow> int" where
  "MakeDay year month dt =
     (let ym = year + month div 12; mn = month mod 12
      in DayFromYear ym + daysBeforeMonth (leapDay ym) mn + dt - 1)"

definition getFullYear :: "int \<Rightarrow> int \<Rightarrow> int" where
  "getFullYear tz t = YearFromDay (Day (LocalTime tz t))"

definition getMonth :: "int \<Rightarrow> int \<Rightarrow> int" where
  "getMonth tz t = MonthFromDay (Day (LocalTime tz t))"

definition getDate :: "int \<Rightarrow> int \<Rightarrow> int" where
  "getDate tz t = DateFromDay (Day (LocalTime tz t))"

text \<open>\<^verbatim>\<open>new Date(year, month, date, hours, minutes, seconds)\<close> in local time; a year from
  0 to 99 stands for 1900 plus that year.\<close>

definition newDate :: "int \<Rightarrow> int \<Rightarrow> int \<Rightarrow> int \<Rightarrow> int \<Rightarrow> int \<Rightarrow> int \<Rightarrow> int" where
  "newDate tz year month dt hours minutes seconds =
     (let yr = (if 0 \<le> year \<and> year \<le> 99 then 1900 + year else year)
      in UTC tz (MakeDate (MakeDay yr month dt) (MakeTime hours minutes seconds 0)))"

section \<open>Period comparison: generateComparisonData\<close>

text \<open>\<^verbatim>\<open>s.padStart(2, '0')\<close>.\<close>

definition padStart2 :: "string \<Rightarrow> string" where
  "padStart2 s = (if length s < 2 then replicate (2 - length s) CHR ''0'' @ s else s)"

record metadata =
  generatedAt :: int
  currentPeriod :: string
  previousPeriod :: string
  comparisonDays :: int

record monthReport = "int occupancy" +
  period :: string
  records :: int
  totalStats :: totalStats

record report =
  metadata :: metadata
  currentMonth :: monthReport
  previousMonth :: monthReport
  comparison :: comparison

text \<open>The two windows, as the pairs of their first and last instants.\<close>

definition currentWindow :: "int \<Rightarrow> int \<Rightarrow> int \<times> int" where
  "currentWindow tz currentDate =
     (let currentMonth = getMonth tz currentDate + 1;
          currentYear = getFullYear tz currentDate;
          currentDay = getDate tz currentDate;
          currentMonthStart = newDate tz currentYear (currentMonth - 1) 1 0 0 0;
          currentMonthEnd = newDate tz currentYear (currentMonth - 1) currentDay 23 59 59
      in (currentMonthStart, currentMonthEnd))"

definition previousWindow :: "int \<Rightarrow> int \<Rightarrow> int \<times> int" where
  "previousWindow tz currentDate =
     (let currentMonth = getMonth tz currentDate + 1;
          currentYear = getFullYear tz currentDate;
          currentDay = getDate tz currentDate;
          previousMonth = (if currentMonth = 1 then 12 else currentMonth - 1);
          previousYear = (if currentMonth = 1 then currentYear - 1 else currentYear);
          previousMonthStart = newDate tz previousYear (previousMonth - 1) 1 0 0 0;
          previousMonthEnd = newDate tz previousYear (previousMonth - 1) currentDay 23 59 59
      in (previousMonthStart, previousMonthEnd))"

text \<open>The callback of the two \<^verbatim>\<open>records.filter\<close> calls.\<close>

definition inWindow :: "int \<times> int \<Rightarrow> csv_record \<Rightarrow> bool" where
  "inWindow w r = (checkinDateTime r \<ge> fst w \<and> checkinDateTime r \<le> snd w)"

definition currentMonthRecords :: "int \<Rightarrow> int \<Rightarrow> csv_record list \<Rightarrow> csv_record list" where
  "currentMonthRecords tz currentDate rs = filter (inWindow (currentWindow tz currentDate)) rs"

definition previousMonthRecords :: "int \<Rightarrow> int \<Rightarrow> csv_record list \<Rightarrow> csv_record list" where
  "previousMonthRecords tz currentDate rs = filter (inWindow (previousWindow tz currentDate)) rs"

text \<open>
  \<^verbatim>\<open>generateComparisonData(records)\<close>. The function has one parameter; it reads the clock
  with \<^verbatim>\<open>new Date()\<close> twice, first for the windows and again for \<^verbatim>\<open>generatedAt\<close>. The
  two readings are the arguments \<open>currentDate\<close> and \<open>generatedDate\<close> of the model, next to
  the zone offset \<open>tz\<close> of the machine.
\<close>

definition generateComparisonData :: "int \<Rightarrow> int \<Rightarrow> int \<Rightarrow> csv_record list \<Rightarrow> report" where
  "generateComparisonData tz currentDate generatedDate rs =
     (let currentMonth = getMonth tz currentDate + 1;
          currentYear = getFullYear tz currentDate;
          currentDay = getDate tz currentDate;
          previousMonth = (if currentMonth = 1 then 12 else currentMonth - 1);
          previousYear = (if currentMonth = 1 then currentYear - 1 else currentYear);
          currentRecords = currentMonthRecords tz currentDate rs;
          previousRecords = previousMonthRecords tz currentDate rs;
          currentMonthData = calculateHourlyOccupancy tz currentRecords;
          previousMonthData = calculateHourlyOccupancy tz previousRecords;
          currentTotalStats = calculateTotalStats currentMonthData currentRecords;
          previousTotalStats = calculateTotalStats previousMonthData previousRecords;
          cy = numberToString (of_int currentYear);
          cm = padStart2 (numberToString (of_int currentMonth));
          py = numberToString (of_int previousYear);
          pm = padStart2 (numberToString (of_int previousMonth));
          cd = padStart2 (numberToString (of_int currentDay))
      in \<lparr> metadata =
             \<lparr> generatedAt = generatedDate,
               currentPeriod = cy @ ''-'' @ cm @ ''-01 to '' @ cy @ ''-'' @ cm @ ''-'' @ cd,
               previousPeriod = py @ ''-'' @ pm @ ''-01 to '' @ py @ ''-'' @ pm @ ''-'' @ cd,
               comparisonDays = currentDay \<rparr>,
           currentMonth =
             \<lparr> hourlyOccupancy = hourlyOccupancy currentMonthData,
               dailyStats = dailyStats currentMonthData,
               allTimeSlots = allTimeSlots currentMonthData,
               period = cy @ ''-'' @ cm,
               records = int (length currentRecords),
               totalStats = currentTotalStats \<rparr>,
           previousMonth =
             \<lparr> hourlyOccupancy = hourlyOccupancy previousMonthData,
               dailyStats = dailyStats previousMonthData,
               allTimeSlots = allTimeSlots previousMonthData,
               period = py @ ''-'' @ pm,
               records = int (length previousRecords),
               totalStats = previousTotalStats \<rparr>,
           comparison = calculateComparison currentTotalStats previousTotalStats \<rparr>)"

text \<open>Time within the local day, and the calendar reading of a window: the instants in month
  \<open>m\<close> (0 to 11) of year \<open>y\<close>, from the first day through 23:59:59.000 of day \<open>d\<close>.\<close>

definition msOfLocalDay :: "int \<Rightarrow> int \<Rightarrow> int" where
  "msOfLocalDay tz t = LocalTime tz t mod 86400000"

definition withinMonthThrough :: "int \<Rightarrow> int \<Rightarrow> int \<Rightarrow> int \<Rightarrow> int \<Rightarrow> bool" where
  "withinMonthThrough tz y m d t =
     (getFullYear tz t = y \<and> getMonth tz t = m
      \<and> (getDate tz t < d \<or> getDate tz t = d \<and> msOfLocalDay tz t \<le> 86399000))"

text \<open>The calendar month before month \<open>m\<close> (0 to 11) of year \<open>y\<close>.\<close>

definition precedingMonth :: "int \<times> int \<Rightarrow> int \<times> int" where
  "precedingMonth ym = (if snd ym = 0 then (fst ym - 1, 11) else (fst ym, snd ym - 1))"


section \<open>Proofs: interval decomposition\<close>

lemma slotEnd_eq:
  "setHours tz c (getHours tz c + 1) = ((c + tz) div 3600000 + 1) * 3600000 - tz"
proof -
  define x where "x = c + tz"
  define q where "q = x div 3600000"
  define a b where "a = q div 24" and "b = q mod 24"
  have d: "x div 86400000 = a"
    using zdiv_zmult2_eq [of 24 x 3600000] by (simp add: a_def q_def)
  have e: "q = a * 24 + b" by (simp add: a_def b_def)
  have "setHours tz c (getHours tz c + 1) = a * 86400000 + (b + 1) * 3600000 - tz"
    by (simp add: setHours_def getHours_def HourFromTime_def LocalTime_def UTC_def
        MakeDate_def MakeTime_def Day_def x_def [symmetric] d q_def [symmetric] b_def)
  also have "\<dots> = (q + 1) * 3600000 - tz"
    unfolding e by (simp add: algebra_simps)
  finally show ?thesis by (simp add: q_def x_def)
qed

lemma slotEnd_bounds:
  "c < setHours tz c (getHours tz c + 1) \<and> setHours tz c (getHours tz c + 1) \<le> c + 3600000"
proof -
  define q r where "q = (c + tz) div 3600000" and "r = (c + tz) mod 3600000"
  have r: "0 \<le> r" "r < 3600000" by (simp_all add: r_def)
  have e: "q * 3600000 + r = c + tz" by (simp add: q_def r_def)
  have "setHours tz c (getHours tz c + 1) = (q + 1) * 3600000 - tz"
    by (simp add: slotEnd_eq q_def)
  with r e show ?thesis by (simp add: algebra_simps)
qed

lemma loop_step:
  assumes "c < co"
  shows "generateTimeSlots_loop tz c co acc =
    generateTimeSlots_loop tz (setHours tz c (getHours tz c + 1)) co
      (acc @ [\<lparr> date = isoDate c, hour = getHours tz c,
                dateHour = (isoDate c, getHours tz c),
                duration = of_int (min co (setHours tz c (getHours tz c + 1)) - c) / 60000,
                checkin = c,
                checkout = min co (setHours tz c (getHours tz c + 1)) \<rparr>])"
proof -
  define e where "e = setHours tz c (getHours tz c + 1)"
  have gt: "c < e" using slotEnd_bounds [of c tz] by (simp add: e_def)
  have m: "(if co < e then co else e) = min co e" by (simp add: min_def)
  have pos: "(0::rat) < of_int (min co e - c) / 60000"
    using gt assms by simp
  show ?thesis
    apply (subst generateTimeSlots_loop.simps)
    using assms pos by (simp add: Let_def e_def [symmetric] m)
qed

lemma loop_stop: "\<not> c < co \<Longrightarrow> generateTimeSlots_loop tz c co acc = acc"
  by (subst generateTimeSlots_loop.simps) simp

lemma loop_append:
  "generateTimeSlots_loop tz c co acc = acc @ generateTimeSlots_loop tz c co []"
proof (induction "nat (co - c)" arbitrary: c acc rule: less_induct)
  case less
  show ?case
  proof (cases "c < co")
    case False
    then show ?thesis by (simp add: loop_stop)
  next
    case True
    define e where "e = setHours tz c (getHours tz c + 1)"
    have "nat (co - e) < nat (co - c)" using slotEnd_bounds [of c tz] True by (simp add: e_def)
    note IH = less [OF this]
    show ?thesis
      unfolding loop_step [OF True, of tz acc] loop_step [OF True, of tz "[]"]
      unfolding e_def [symmetric]
      by (subst IH, subst (2) IH, simp)
  qed
qed

lemma gts_Cons:
  assumes "c < co"
  shows "generateTimeSlots tz c co =
     \<lparr> date = isoDate c, hour = getHours tz c,
                dateHour = (isoDate c, getHours tz c),
                duration = of_int (min co (setHours tz c (getHours tz c + 1)) - c) / 60000,
                checkin = c,
                checkout = min co (setHours tz c (getHours tz c + 1)) \<rparr>
     # generateTimeSlots tz (setHours tz c (getHours tz c + 1)) co"
  unfolding generateTimeSlots_def
  by (subst loop_step [OF assms], subst loop_append, simp)

lemma gts_Nil: "\<not> c < co \<Longrightarrow> generateTimeSlots tz c co = []"
  by (simp add: generateTimeSlots_def loop_stop)

lemma same_hour:
  assumes "c \<le> t" "t < setHours tz c (getHours tz c + 1)"
  shows "clockHour tz t = clockHour tz c"
proof -
  define q r where "q = (c + tz) div 3600000" and "r = (c + tz) mod 3600000"
  have r: "0 \<le> r" "r < 3600000" by (simp_all add: r_def)
  have e: "q * 3600000 + r = c + tz" by (simp add: q_def r_def)
  have se: "setHours tz c (getHours tz c + 1) = (q + 1) * 3600000 - tz"
    by (simp add: slotEnd_eq q_def)
  define r' where "r' = t + tz - q * 3600000"
  have "t + tz = 3600000 * q + r'" "0 \<le> r'" "r' < 3600000"
    using assms r e se by (simp_all add: r'_def algebra_simps)
  then have "(t + tz) div 3600000 = q" by (rule int_div_pos_eq)
  then show ?thesis by (simp add: clockHour_def LocalTime_def q_def)
qed

lemma gts_slot_props:
  "s \<in> set (generateTimeSlots tz c co) \<Longrightarrow>
     c \<le> checkin s \<and> checkin s < checkout s \<and> checkout s \<le> co
     \<and> checkout s - checkin s \<le> 3600000
     \<and> duration s = of_int (checkout s - checkin s) / 60000
     \<and> (\<forall>t. covers t s \<longrightarrow> clockHour tz t = clockHour tz (checkin s))
     \<and> date s = isoDate (checkin s) \<and> hour s = getHours tz (checkin s)
     \<and> dateHour s = (date s, hour s)"
proof (induction "nat (co - c)" arbitrary: c rule: less_induct)
  case less
  show ?case
  proof (cases "c < co")
    case False
    with less.prems show ?thesis by (simp add: gts_Nil)
  next
    case True
    define e where "e = setHours tz c (getHours tz c + 1)"
    have b: "c < e" "e \<le> c + 3600000" using slotEnd_bounds [of c tz] by (simp_all add: e_def)
    have m: "nat (co - e) < nat (co - c)" using b True by simp
    from less.prems consider
      (hd) "s = \<lparr> date = isoDate c, hour = getHours tz c,
                dateHour = (isoDate c, getHours tz c),
                duration = of_int (min co e - c) / 60000,
                checkin = c, checkout = min co e \<rparr>"
      | (tl) "s \<in> set (generateTimeSlots tz e co)"
      unfolding gts_Cons [OF True] e_def by auto
    then show ?thesis
    proof cases
      case hd
      have "\<forall>t. covers t s \<longrightarrow> clockHour tz t = clockHour tz (checkin s)"
      proof (intro allI impI)
        fix t assume "covers t s"
        then have "c \<le> t" "t < setHours tz c (getHours tz c + 1)"
          by (simp_all add: hd covers_def e_def)
        then show "clockHour tz t = clockHour tz (checkin s)"
          using same_hour [of c t tz] by (simp add: hd)
      qed
      then show ?thesis using b True by (simp add: hd)
    next
      case tl
      from less.hyps [OF m tl] b show ?thesis by simp
    qed
  qed
qed

lemma gts_contiguous: "c < co \<Longrightarrow> contiguous c co (generateTimeSlots tz c co)"
proof (induction "nat (co - c)" arbitrary: c rule: less_induct)
  case less
  define e where "e = setHours tz c (getHours tz c + 1)"
  have b: "c < e" using slotEnd_bounds [of c tz] by (simp add: e_def)
  have m: "nat (co - e) < nat (co - c)" using b less.prems by simp
  show ?case
  proof (cases "e < co")
    case True
    then have "contiguous e co (generateTimeSlots tz e co)" by (rule less.hyps [OF m])
    with True b show ?thesis
      unfolding gts_Cons [OF less.prems] e_def [symmetric] by (simp add: min_def)
  next
    case False
    then have "generateTimeSlots tz e co = []" by (rule gts_Nil)
    with False less.prems show ?thesis
      unfolding gts_Cons [OF less.prems] e_def [symmetric] by (simp add: min_def)
  qed
qed

lemma contiguous_le: "contiguous a b ss \<Longrightarrow> a \<le> b"
  by (induction ss arbitrary: a) force+

lemma contiguous_count:
  "contiguous a b ss \<Longrightarrow>
     length (filter (covers t) ss) = (if a \<le> t \<and> t < b then 1 else 0)"
proof (induction ss arbitrary: a)
  case Nil
  then show ?case by simp
next
  case (Cons s ss)
  from Cons.prems have c: "checkin s = a" "a < checkout s" "contiguous (checkout s) b ss"
    by simp_all
  from contiguous_le [OF c(3)] have "checkout s \<le> b" .
  with Cons.IH [OF c(3)] c show ?case by (auto simp: covers_def)
qed


lemma contiguous_sum:
  "contiguous a b ss \<Longrightarrow> \<forall>s \<in> set ss. duration s = of_int (checkout s - checkin s) / 60000 \<Longrightarrow>
     sum_list (map duration ss) = of_int (b - a) / 60000"
proof (induction ss arbitrary: a)
  case Nil
  then show ?case by simp
next
  case (Cons s ss)
  from Cons.prems have c: "checkin s = a" "a < checkout s" "contiguous (checkout s) b ss"
    by simp_all
  have "sum_list (map duration ss) = of_int (b - checkout s) / 60000"
    using Cons.IH [OF c(3)] Cons.prems(2) by simp
  moreover have "duration s = of_int (checkout s - a) / 60000"
    using Cons.prems(2) c by simp
  ultimately show ?case by (simp add: field_simps)
qed


text \<open>Example A of the specification: check-in 2024-03-29 23:33:42 +0900, stay of 90 minutes.\<close>

lemma generateTimeSlots_example_A: "map (\<lambda>s. (dateHour s, duration s, checkin s, checkout s)) (generateTimeSlots 32400000 1711722822000 1711728222000) =
   [((19811, 23), 263/10, 1711722822000, 1711724400000),
    ((19811, 0), 60, 1711724400000, 1711728000000),
    ((19811, 1), 37/10, 1711728000000, 1711728222000)]"
  by code_simp


text \<open>
  Claim C1. For every visit with \<open>checkin < checkout\<close> the emitted slots form a chain of
  non-empty intervals from checkin to checkout: every instant of \<open>[checkin, checkout)\<close> is
  covered by exactly one slot and every other instant by none (no gaps, no overlaps), and the
  durations add up to \<open>(checkout - checkin)\<close> in minutes.
\<close>

theorem generateTimeSlots_partition:
  assumes "ci < co"
  shows "contiguous ci co (generateTimeSlots tz ci co)
       \<and> (\<forall>t. length (filter (covers t) (generateTimeSlots tz ci co))
                = (if ci \<le> t \<and> t < co then 1 else 0))
       \<and> sum_list (map duration (generateTimeSlots tz ci co)) = of_int (co - ci) / 60000"
proof -
  have c: "contiguous ci co (generateTimeSlots tz ci co)" using assms by (rule gts_contiguous)
  have d: "\<forall>s \<in> set (generateTimeSlots tz ci co).
             duration s = of_int (checkout s - checkin s) / 60000"
    using gts_slot_props [of _ tz ci co] by simp
  show ?thesis using c contiguous_count [OF c] contiguous_sum [OF c d] by simp
qed

theorem generateTimeSlots_partition_witness:
  "(1711722822000::int) < 1711728222000
   \<and> map duration (generateTimeSlots 32400000 1711722822000 1711728222000) = [263/10, 60, 37/10]
   \<and> contiguous 1711722822000 1711728222000
        (generateTimeSlots 32400000 1711722822000 1711728222000)
   \<and> (\<forall>t. length (filter (covers t) (generateTimeSlots 32400000 1711722822000 1711728222000))
                = (if 1711722822000 \<le> t \<and> t < 1711728222000 then 1 else 0))
   \<and> sum_list (map duration (generateTimeSlots 32400000 1711722822000 1711728222000))
        = of_int (1711728222000 - 1711722822000) / 60000"
proof -
  have h: "(1711722822000::int) < 1711728222000" by simp
  have e: "map duration (generateTimeSlots 32400000 1711722822000 1711728222000)
            = [263/10, 60, 37/10]" by code_simp
  show ?thesis using h e generateTimeSlots_partition [OF h, of 32400000] by simp
qed




section \<open>Proofs: aggregation and summary\<close>

lemma recordBody_absent_checkout:
  "checkoutDateTime r = None \<Longrightarrow>
     recordBody tz st r = (if stayTime r > 0 then Inl TypeError else Inr st)"
  by (simp add: recordBody_def Let_def)

lemma processRecord_absent_checkout:
  "checkoutDateTime r = None \<Longrightarrow> processRecord tz st r = st"
  by (simp add: processRecord_def recordBody_absent_checkout)

lemma processRecord_present:
  "checkoutDateTime r = Some c \<Longrightarrow> processRecord tz st r =
     (if stayTime r \<le> 0 then st
      else \<lparr> hourlyOccupancy =
               foldl (countSlot (customer r)) (hourlyOccupancy st)
                 (generateTimeSlots tz (checkinDateTime r) c),
             dailyStats =
               countDay (isoDate (checkinDateTime r)) (customer r) (stayTime r) (dailyStats st),
             allTimeSlots =
               allTimeSlots st @ map (tagSlot (customer r) (stayTime r))
                 (generateTimeSlots tz (checkinDateTime r) c) \<rparr>)"
  by (simp add: processRecord_def recordBody_def Let_def)

text \<open>
  Claim C2. A record whose check-out column is absent and whose stay is positive should be
  processed with check-out = check-in + stay. The code reaches the assignment to the
  \<^verbatim>\<open>const\<close> binding, the TypeError is caught, and the record is skipped: for a single such
  record (check-in 2024-03-29 23:33:42 +0900, stay of 90 minutes) no bucket and no daily
  statistic is produced.
\<close>

theorem absent_checkout_dropped:
  "calculateHourlyOccupancy 32400000
     [\<lparr> customer = ''a'', checkinDateTime = 1711722822000, checkoutDateTime = None,
        stayTime = 90 \<rparr>]
   = \<lparr> hourlyOccupancy = [], dailyStats = [], allTimeSlots = [] \<rparr>"
  by (simp add: calculateHourlyOccupancy_def processRecord_absent_checkout emptyOccupancy_def)

lemma map_entry_fresh:
  "map_of h k = None \<Longrightarrow> AList.map_entry k f (AList.update k e h) = h @ [(k, f e)]"
  by (induction h) (auto split: if_splits)

lemma countSlot_cases:
  "countSlot name h s =
     (if map_of h (dateHour s) = None
      then h @ [(dateHour s, \<lparr> bcount = 1, totalMinutes = duration s,
                                users = [(name, duration s)] \<rparr>)]
      else AList.map_entry (dateHour s)
             (\<lambda>b. b\<lparr> bcount := bcount b + 1,
                      totalMinutes := totalMinutes b + duration s,
                      users := users b @ [(name, duration s)] \<rparr>) h)"
  by (simp add: countSlot_def map_entry_fresh)

lemma list_all_map_entry:
  "list_all (Q \<circ> snd) h \<Longrightarrow> (\<And>b. Q b \<Longrightarrow> Q (f b)) \<Longrightarrow>
     list_all (Q \<circ> snd) (AList.map_entry k f h)"
  by (induction h) auto

lemma countSlot_ok:
  assumes "list_all (bucket_ok \<circ> snd) h"
  shows "list_all (bucket_ok \<circ> snd) (countSlot name h s)"
proof (cases "map_of h (dateHour s) = None")
  case True
  then show ?thesis using assms by (simp add: countSlot_cases bucket_ok_def)
next
  case False
  have "list_all (bucket_ok \<circ> snd) (AList.map_entry (dateHour s)
             (\<lambda>b. b\<lparr> bcount := bcount b + 1,
                      totalMinutes := totalMinutes b + duration s,
                      users := users b @ [(name, duration s)] \<rparr>) h)"
    using assms by (rule list_all_map_entry) (simp add: bucket_ok_def)
  moreover from False have "countSlot name h s = AList.map_entry (dateHour s)
             (\<lambda>b. b\<lparr> bcount := bcount b + 1,
                      totalMinutes := totalMinutes b + duration s,
                      users := users b @ [(name, duration s)] \<rparr>) h"
    unfolding countSlot_cases by (rule if_not_P)
  ultimately show ?thesis by simp
qed

lemma countSlots_ok:
  "list_all (bucket_ok \<circ> snd) h \<Longrightarrow> list_all (bucket_ok \<circ> snd) (foldl (countSlot name) h ss)"
  by (induction ss arbitrary: h) (simp_all add: countSlot_ok)

lemma processRecord_ok:
  assumes "list_all (bucket_ok \<circ> snd) (hourlyOccupancy st)"
  shows "list_all (bucket_ok \<circ> snd) (hourlyOccupancy (processRecord tz st r))"
proof (cases "checkoutDateTime r")
  case None
  then show ?thesis using assms by (simp add: processRecord_absent_checkout)
next
  case (Some c)
  then show ?thesis using assms by (simp add: processRecord_present countSlots_ok)
qed

lemma processRecords_ok:
  "list_all (bucket_ok \<circ> snd) (hourlyOccupancy st) \<Longrightarrow>
     list_all (bucket_ok \<circ> snd) (hourlyOccupancy (foldl (processRecord tz) st rs))"
  by (induction rs arbitrary: st) (simp_all add: processRecord_ok)

lemma reachable_ok:
  "list_all (bucket_ok \<circ> snd) (hourlyOccupancy (foldl (processRecord tz) emptyOccupancy rs))"
  by (rule processRecords_ok) (simp add: emptyOccupancy_def)


lemma Math_round_0: "Math_round 0 = 0"
  unfolding Math_round_def by (rule floor_unique) simp_all

text \<open>
  Claim C6. For the empty record set, whose buckets and daily statistics are empty,
  \<^verbatim>\<open>calculateTotalStats\<close> returns 0 for every metric. The function has no failing
  branch.
\<close>

theorem empty_stats:
  "calculateTotalStats (calculateHourlyOccupancy tz []) []
     = \<lparr> totalHours = 0, manHours = 0, uniqueUsers = 0, totalSessions = 0,
         peakOccupancy = 0, averageOccupancy = 0, activeDays = 0 \<rparr>"
  by (simp add: calculateTotalStats_def calculateHourlyOccupancy_def emptyOccupancy_def
      Math_round_0)

lemma roundedToTenth_Math_round: "roundedToTenth (of_int (Math_round (x * 10)) / 10) x"
proof -
  define k where "k = \<lfloor>x * 10 + 1 / 2\<rfloor>"
  have "of_int k \<le> x * 10 + 1 / 2" "x * 10 + 1 / 2 < of_int k + 1"
    unfolding k_def by linarith+
  then have "of_int k / 10 - x \<le> 1 / 20" "- (of_int k / 10 - x) \<le> 1 / 20" by linarith+
  then have "\<bar>of_int k / 10 - x\<bar> \<le> 1 / 20" by (rule abs_leI)
  then show ?thesis by (simp add: roundedToTenth_def Math_round_def k_def)
qed

lemma foldl_plus_sum_list:
  "foldl (\<lambda>sum h. sum + f h) a xs = a + sum_list (map f xs)"
  for a :: "'a::monoid_add"
  by (induction xs arbitrary: a) (simp_all add: add.assoc)

lemma averageOccupancy_eq:
  "averageOccupancy (calculateTotalStats md rs) =
     (if hourlyOccupancy md = [] then 0
      else of_int (Math_round (meanCount (hourlyOccupancy md) * 10)) / 10)"
  by (simp add: calculateTotalStats_def Let_def meanCount_def foldl_plus_sum_list Math_round_0
      comp_def)

lemma countSlot_distinct:
  assumes "distinct (map fst h)"
  shows "distinct (map fst (countSlot name h s))"
proof (cases "map_of h (dateHour s) = None")
  case True
  then have "dateHour s \<notin> fst ` set h" by (simp add: map_of_eq_None_iff)
  with True assms show ?thesis by (simp add: countSlot_cases)
next
  case False
  then have "countSlot name h s = AList.map_entry (dateHour s)
             (\<lambda>b. b\<lparr> bcount := bcount b + 1,
                      totalMinutes := totalMinutes b + duration s,
                      users := users b @ [(name, duration s)] \<rparr>) h"
    unfolding countSlot_cases by (rule if_not_P)
  with assms show ?thesis by (simp add: distinct_map_entry)
qed

lemma countSlots_distinct:
  "distinct (map fst h) \<Longrightarrow> distinct (map fst (foldl (countSlot name) h ss))"
  by (induction ss arbitrary: h) (simp_all add: countSlot_distinct)

lemma processRecord_distinct:
  assumes "distinct (map fst (hourlyOccupancy st))"
  shows "distinct (map fst (hourlyOccupancy (processRecord tz st r)))"
proof (cases "checkoutDateTime r")
  case None
  then show ?thesis using assms by (simp add: processRecord_absent_checkout)
next
  case (Some c)
  then show ?thesis using assms by (simp add: processRecord_present countSlots_distinct)
qed

lemma processRecords_distinct:
  "distinct (map fst (hourlyOccupancy st)) \<Longrightarrow>
     distinct (map fst (hourlyOccupancy (foldl (processRecord tz) st rs)))"
  by (induction rs arbitrary: st) (simp_all add: processRecord_distinct)

lemma hourly_distinct:
  "distinct (map fst (hourlyOccupancy (calculateHourlyOccupancy tz rs)))"
  using processRecords_distinct [of emptyOccupancy tz rs]
  by (simp add: calculateHourlyOccupancy_def Let_def emptyOccupancy_def)

lemma hourly_ok:
  "list_all (bucket_ok \<circ> snd) (hourlyOccupancy (calculateHourlyOccupancy tz rs))"
  using reachable_ok [of tz rs] by (simp add: calculateHourlyOccupancy_def Let_def)

text \<open>
  Claim C7. When buckets exist, \<^verbatim>\<open>averageOccupancy\<close> is the mean of the counts of the buckets
  present, rounded to one decimal place; when none exists it is 0. The buckets that
  \<^verbatim>\<open>calculateHourlyOccupancy\<close> returns have distinct keys and counts of at least one, so
  an hour without occupants is not among them and does not enter the mean.
\<close>

theorem averageOccupancy_mean:
  "(hourlyOccupancy md = [] \<longrightarrow> averageOccupancy (calculateTotalStats md rs) = 0)
   \<and> (hourlyOccupancy md \<noteq> [] \<longrightarrow>
        averageOccupancy (calculateTotalStats md rs)
          = of_int (Math_round (meanCount (hourlyOccupancy md) * 10)) / 10
        \<and> roundedToTenth (averageOccupancy (calculateTotalStats md rs))
             (meanCount (hourlyOccupancy md)))
   \<and> distinct (map fst (hourlyOccupancy (calculateHourlyOccupancy tz rs0)))
   \<and> list_all (\<lambda>b. 1 \<le> bcount b) (map snd (hourlyOccupancy (calculateHourlyOccupancy tz rs0)))"
proof -
  have "list_all (\<lambda>b. 1 \<le> bcount b) (map snd (hourlyOccupancy (calculateHourlyOccupancy tz rs0)))"
    using hourly_ok [of tz rs0] by (auto simp: list_all_iff bucket_ok_def)
  then show ?thesis
    by (simp add: averageOccupancy_eq roundedToTenth_Math_round hourly_distinct)
qed

lemma calculateHourlyOccupancy_example: "map (\<lambda>(k, b). (k, bcount b)) (hourlyOccupancy (calculateHourlyOccupancy 32400000 [visitA, visitC])) = [((19811, 23), 2), ((19811, 0), 1), ((19811, 1), 1)]"
  unfolding visitA_def visitC_def
  by code_simp

lemma averageOccupancy_example: "averageOccupancy (calculateTotalStats (calculateHourlyOccupancy 32400000 [visitA, visitC]) [visitA, visitC]) = 13/10"
  unfolding visitA_def visitC_def
  by code_simp

theorem averageOccupancy_mean_witness:
  "hourlyOccupancy (calculateHourlyOccupancy 32400000 [visitA, visitC]) \<noteq> []
   \<and> meanCount (hourlyOccupancy (calculateHourlyOccupancy 32400000 [visitA, visitC])) = 4 / 3
   \<and> averageOccupancy (calculateTotalStats
         (calculateHourlyOccupancy 32400000 [visitA, visitC]) [visitA, visitC]) = 13 / 10
   \<and> roundedToTenth (13 / 10) (4 / 3)"
proof -
  have ne: "hourlyOccupancy (calculateHourlyOccupancy 32400000 [visitA, visitC]) \<noteq> []"
    unfolding visitA_def visitC_def by code_simp
  have m: "meanCount (hourlyOccupancy (calculateHourlyOccupancy 32400000 [visitA, visitC])) = 4 / 3"
    unfolding visitA_def visitC_def by code_simp
  have a: "averageOccupancy (calculateTotalStats
         (calculateHourlyOccupancy 32400000 [visitA, visitC]) [visitA, visitC]) = 13 / 10"
    unfolding visitA_def visitC_def by code_simp
  have "roundedToTenth (averageOccupancy (calculateTotalStats
         (calculateHourlyOccupancy 32400000 [visitA, visitC]) [visitA, visitC]))
      (meanCount (hourlyOccupancy (calculateHourlyOccupancy 32400000 [visitA, visitC])))"
    using ne
      averageOccupancy_mean [of "calculateHourlyOccupancy 32400000 [visitA, visitC]"
        "[visitA, visitC]" 0 "[]"]
    by blast
  then have "roundedToTenth (13 / 10) (4 / 3)" by (simp only: a m)
  with ne m a show ?thesis by blast
qed

text \<open>Examples C and D of the specification.\<close>

lemma calculateChange_examples: "calculateChange 100 50 = ''+100%''" "calculateChange 0 50 = ''-100%''"
  "calculateChange 5 0 = plusInfinityPercent" "calculateChange 0 0 = ''0%''"
  "calculateChange 1 3 = ''-66.7%''"  "calculateDifference 12 9 = ''+3''"
  by code_simp+


section \<open>Proofs: order of the records\<close>




























section \<open>Proofs: calendar and comparison windows\<close>

lemma div_succ:
  fixes x k :: int
  assumes "0 < k"
  shows "(x + 1) div k = x div k + (if (x + 1) mod k = 0 then 1 else 0)"
proof -
  define q r where "q = x div k" and "r = x mod k"
  have x: "x = k * q + r" and r: "0 \<le> r" "r < k" using assms by (simp_all add: q_def r_def)
  show ?thesis
  proof (cases "r + 1 = k")
    case True
    then have e: "x + 1 = k * (q + 1) + 0" using x by (simp add: algebra_simps)
    have "(x + 1) div k = q + 1" using assms by (intro int_div_pos_eq [OF e]) simp_all
    moreover have "(x + 1) mod k = 0" using assms by (intro int_mod_pos_eq [OF e]) simp_all
    ultimately show ?thesis by (simp add: q_def)
  next
    case False
    then have e: "x + 1 = k * q + (r + 1)" and b: "0 \<le> r + 1" "r + 1 < k"
      using x r by simp_all
    have "(x + 1) div k = q" by (rule int_div_pos_eq [OF e b])
    moreover have "(x + 1) mod k = r + 1" by (rule int_mod_pos_eq [OF e b])
    ultimately show ?thesis using r by (simp add: q_def)
  qed
qed

lemma DayFromYear_Suc: "DayFromYear (y + 1) = DayFromYear y + DaysInYear y"
proof -
  have a: "(y + 1 - 1969) div 4 = (y - 1969) div 4 + (if y mod 4 = 0 then 1 else 0)"
  proof -
    have "(y - 1968) mod 4 = 0 \<longleftrightarrow> y mod 4 = 0" by presburger
    then show ?thesis using div_succ [of 4 "y - 1969"] by simp
  qed
  have b: "(y + 1 - 1901) div 100 = (y - 1901) div 100 + (if y mod 100 = 0 then 1 else 0)"
  proof -
    have "(y - 1900) mod 100 = 0 \<longleftrightarrow> y mod 100 = 0" by presburger
    then show ?thesis using div_succ [of 100 "y - 1901"] by simp
  qed
  have c: "(y + 1 - 1601) div 400 = (y - 1601) div 400 + (if y mod 400 = 0 then 1 else 0)"
  proof -
    have "(y - 1600) mod 400 = 0 \<longleftrightarrow> y mod 400 = 0" by presburger
    then show ?thesis using div_succ [of 400 "y - 1601"] by simp
  qed
  have d: "y mod 400 = 0 \<Longrightarrow> y mod 100 = 0" "y mod 100 = 0 \<Longrightarrow> y mod 4 = 0"
    by presburger+
  show ?thesis
    unfolding DayFromYear_def DaysInYear_def InLeapYear_def a b c
    using d by auto
qed

lemma DaysInYear_bounds: "365 \<le> DaysInYear y" "DaysInYear y \<le> 366"
  by (simp_all add: DaysInYear_def)

lemma DayFromYear_less: "DayFromYear y < DayFromYear (y + 1)"
  using DaysInYear_bounds(1) [of y] by (simp add: DayFromYear_Suc)

lemma DayFromYear_mono:
  assumes "a \<le> b"
  shows "DayFromYear a \<le> DayFromYear b"
  using assms
proof (induction b rule: int_ge_induct)
  case base
  show ?case by simp
next
  case (step i)
  then show ?case using DayFromYear_less [of i] by simp
qed

lemma DayFromYear_upper: "400 * DayFromYear y \<le> 146097 * (y - 1970) + 589"
proof -
  define a b c where "a = (y - 1969) div 4" and "b = (y - 1901) div 100"
    and "c = (y - 1601) div 400"
  have "4 * a \<le> y - 1969" unfolding a_def by (simp add: algebra_simps)
  moreover have "y - 1901 < 100 * b + 100"
    using pos_mod_bound [of 100 "y - 1901"] div_mult_mod_eq [of "y - 1901" 100]
    unfolding b_def by linarith
  moreover have "400 * c \<le> y - 1601" unfolding c_def by (simp add: algebra_simps)
  ultimately have "400 * a \<le> 100 * (y - 1969)" "4 * (y - 1901) \<le> 400 * b + 396"
    "400 * c \<le> y - 1601" by simp_all
  then show ?thesis
    unfolding DayFromYear_def a_def [symmetric] b_def [symmetric] c_def [symmetric]
    by (simp add: algebra_simps)
qed

lemma DayFromYear_lower: "146097 * (y - 1970) - 506 \<le> 400 * DayFromYear y"
proof -
  define a b c where "a = (y - 1969) div 4" and "b = (y - 1901) div 100"
    and "c = (y - 1601) div 400"
  have "y - 1969 < 4 * a + 4"
    using pos_mod_bound [of 4 "y - 1969"] div_mult_mod_eq [of "y - 1969" 4]
    unfolding a_def by linarith
  moreover have "100 * b \<le> y - 1901" unfolding b_def by (simp add: algebra_simps)
  moreover have "y - 1601 < 400 * c + 400"
    using pos_mod_bound [of 400 "y - 1601"] div_mult_mod_eq [of "y - 1601" 400]
    unfolding c_def by linarith
  ultimately have "100 * (y - 1969) \<le> 400 * a + 300" "400 * b \<le> 4 * (y - 1901)"
    "y - 1601 \<le> 400 * c + 399" by simp_all
  then show ?thesis
    unfolding DayFromYear_def a_def [symmetric] b_def [symmetric] c_def [symmetric]
    by (simp add: algebra_simps)
qed

lemma YearFromDay_correct:
  "DayFromYear (YearFromDay z) \<le> z \<and> z < DayFromYear (YearFromDay z + 1)"
proof -
  define n where "n = (z * 400) div 146097"
  have n1: "146097 * n \<le> 400 * z" unfolding n_def by (simp add: algebra_simps)
  have n2: "400 * z < 146097 * n + 146097"
    using pos_mod_bound [of 146097 "z * 400"] div_mult_mod_eq [of "z * 400" 146097]
    unfolding n_def by linarith
  have lo: "DayFromYear (1970 + n - 1) \<le> z"
  proof -
    have "400 * DayFromYear (1970 + n - 1) \<le> 146097 * n" 
      using DayFromYear_upper [of "1970 + n - 1"] by simp
    from this n1 have "400 * DayFromYear (1970 + n - 1) \<le> 400 * z" by (rule order_trans)
    then show ?thesis by simp
  qed
  have hi: "z < DayFromYear (1970 + n + 2)"
  proof -
    have "146097 * n + 146097 \<le> 400 * DayFromYear (1970 + n + 2)"
      using DayFromYear_lower [of "1970 + n + 2"] by simp
    with n2 have "400 * z < 400 * DayFromYear (1970 + n + 2)" by (rule less_le_trans)
    then show ?thesis by simp
  qed
  have e: "1970 + n - 1 + 1 = 1970 + n" "1970 + n + 1 + 1 = 1970 + n + 2" by simp_all
  show ?thesis
    unfolding YearFromDay_def n_def [symmetric] Let_def
    using lo hi by (auto simp: e not_less not_le)
qed

lemma YearFromDay_unique:
  assumes "DayFromYear y \<le> z" "z < DayFromYear (y + 1)"
  shows "YearFromDay z = y"
proof (rule ccontr)
  assume ne: "YearFromDay z \<noteq> y"
  note c = YearFromDay_correct [of z]
  show False
  proof (cases "YearFromDay z < y")
    case True
    then have "DayFromYear (YearFromDay z + 1) \<le> DayFromYear y"
      by (intro DayFromYear_mono) simp
    with c assms show False by linarith
  next
    case False
    with ne have "DayFromYear (y + 1) \<le> DayFromYear (YearFromDay z)"
      by (intro DayFromYear_mono) simp
    with c assms show False by linarith
  qed
qed

lemma leapDay_cases: "leapDay y = 0 \<or> leapDay y = 1"
  by (simp add: leapDay_def)

lemma DaysInYear_leapDay: "DaysInYear y = 365 + leapDay y"
  by (simp add: DaysInYear_def leapDay_def)

lemma month_table:
  assumes "l = 0 \<or> l = 1" "0 \<le> w" "w < 365 + l"
  shows "0 \<le> monthOfDay l w \<and> monthOfDay l w \<le> 11
       \<and> 1 \<le> w - daysBeforeMonth l (monthOfDay l w) + 1
       \<and> w - daysBeforeMonth l (monthOfDay l w) + 1 \<le> daysInMonth l (monthOfDay l w)"
  using assms unfolding monthOfDay_def daysBeforeMonth_def daysInMonth_def
  by (elim disjE) (simp_all split: if_splits)

lemma month_cases:
  fixes m :: int
  assumes "0 \<le> m" "m \<le> 11"
  obtains "m = 0" | "m = 1" | "m = 2" | "m = 3" | "m = 4" | "m = 5" | "m = 6" | "m = 7"
    | "m = 8" | "m = 9" | "m = 10" | "m = 11"
proof -
  have "m = 0 \<or> m = 1 \<or> m = 2 \<or> m = 3 \<or> m = 4 \<or> m = 5 \<or> m = 6 \<or> m = 7
      \<or> m = 8 \<or> m = 9 \<or> m = 10 \<or> m = 11"
    using assms by presburger
  then show thesis using that by blast
qed

lemma month_table_inv:
  assumes "l = 0 \<or> l = 1" "0 \<le> m" "m \<le> 11" "1 \<le> d" "d \<le> daysInMonth l m"
  shows "monthOfDay l (daysBeforeMonth l m + d - 1) = m
       \<and> 0 \<le> daysBeforeMonth l m + d - 1 \<and> daysBeforeMonth l m + d - 1 < 365 + l"
  using assms(2,3)
proof (cases rule: month_cases)
qed (use assms(1,4,5) in \<open>auto simp: monthOfDay_def daysBeforeMonth_def daysInMonth_def\<close>)

lemma MakeDay_month:
  assumes "0 \<le> m" "m \<le> 11"
  shows "MakeDay y m d = DayFromYear y + daysBeforeMonth (leapDay y) m + d - 1"
proof -
  have "m div 12 = 0" "m mod 12 = m" using assms by simp_all
  then show ?thesis by (simp add: MakeDay_def)
qed

lemma DayWithinYear_bounds: "0 \<le> DayWithinYear z \<and> DayWithinYear z < 365 + leapDay (YearFromDay z)"
  using YearFromDay_correct [of z] DayFromYear_Suc [of "YearFromDay z"]
  by (simp add: DayWithinYear_def DaysInYear_leapDay)

lemma civil_valid:
  "0 \<le> MonthFromDay z \<and> MonthFromDay z \<le> 11
   \<and> 1 \<le> DateFromDay z
   \<and> DateFromDay z \<le> daysInMonth (leapDay (YearFromDay z)) (MonthFromDay z)
   \<and> MakeDay (YearFromDay z) (MonthFromDay z) (DateFromDay z) = z"
proof -
  define l where "l = leapDay (YearFromDay z)"
  define w where "w = DayWithinYear z"
  have t: "0 \<le> monthOfDay l w \<and> monthOfDay l w \<le> 11
       \<and> 1 \<le> w - daysBeforeMonth l (monthOfDay l w) + 1
       \<and> w - daysBeforeMonth l (monthOfDay l w) + 1 \<le> daysInMonth l (monthOfDay l w)"
    using DayWithinYear_bounds [of z] leapDay_cases [of "YearFromDay z"]
    by (intro month_table) (simp_all add: l_def w_def)
  have m: "MonthFromDay z = monthOfDay l w" by (simp add: MonthFromDay_def l_def w_def)
  have d: "DateFromDay z = w - daysBeforeMonth l (monthOfDay l w) + 1"
    by (simp add: DateFromDay_def m l_def w_def)
  have "MakeDay (YearFromDay z) (MonthFromDay z) (DateFromDay z) = z"
    using t by (simp add: MakeDay_month m d l_def [symmetric]) (simp add: w_def DayWithinYear_def)
  with t show ?thesis by (simp add: m d l_def [symmetric])
qed

lemma civil_of_MakeDay:
  assumes "0 \<le> m" "m \<le> 11" "1 \<le> d" "d \<le> daysInMonth (leapDay y) m"
  shows "YearFromDay (MakeDay y m d) = y \<and> MonthFromDay (MakeDay y m d) = m
       \<and> DateFromDay (MakeDay y m d) = d"
proof -
  define l where "l = leapDay y"
  define w where "w = daysBeforeMonth l m + d - 1"
  have t: "monthOfDay l w = m \<and> 0 \<le> w \<and> w < 365 + l"
    unfolding w_def using leapDay_cases [of y] assms
    by (intro month_table_inv) (simp_all add: l_def)
  have z: "MakeDay y m d = DayFromYear y + w"
    by (simp add: MakeDay_month assms w_def l_def)
  have y: "YearFromDay (MakeDay y m d) = y"
    unfolding z using t by (intro YearFromDay_unique) (simp_all add: DayFromYear_Suc DaysInYear_leapDay l_def)
  have w: "DayWithinYear (MakeDay y m d) = w"
    unfolding DayWithinYear_def y by (simp add: z)
  have mm: "MonthFromDay (MakeDay y m d) = m"
    unfolding MonthFromDay_def y w using t by (simp add: l_def)
  have "DateFromDay (MakeDay y m d) = d"
    unfolding DateFromDay_def mm y w by (simp add: w_def l_def)
  with y mm show ?thesis by simp
qed

lemma newDate_eq:
  assumes "\<not> (0 \<le> y \<and> y \<le> 99)"
  shows "newDate tz y m d h mi s =
           MakeDay y m d * 86400000 + (h * 3600000 + mi * 60000 + s * 1000) - tz"
proof -
  from assms have "(if 0 \<le> y \<and> y \<le> 99 then 1900 + y else y) = y" by (rule if_not_P)
  then show ?thesis by (simp add: newDate_def UTC_def MakeDate_def MakeTime_def)
qed

lemma days_window:
  assumes "0 \<le> m" "m \<le> 11" "1 \<le> d" "d \<le> daysInMonth (leapDay y) m"
  shows "(MakeDay y m 1 \<le> z \<and> z \<le> MakeDay y m d)
           \<longleftrightarrow> (YearFromDay z = y \<and> MonthFromDay z = m \<and> DateFromDay z \<le> d)"
    and "YearFromDay z = y \<Longrightarrow> MonthFromDay z = m \<Longrightarrow> z = MakeDay y m 1 + DateFromDay z - 1"
proof -
  have md: "MakeDay y m k = MakeDay y m 1 + k - 1" for k
    by (simp add: MakeDay_month assms(1,2))
  show bk: "z = MakeDay y m 1 + DateFromDay z - 1" if "YearFromDay z = y" "MonthFromDay z = m"
    using civil_valid [of z] that md [of "DateFromDay z"] by simp
  show "(MakeDay y m 1 \<le> z \<and> z \<le> MakeDay y m d)
           \<longleftrightarrow> (YearFromDay z = y \<and> MonthFromDay z = m \<and> DateFromDay z \<le> d)"
  proof
    assume a: "MakeDay y m 1 \<le> z \<and> z \<le> MakeDay y m d"
    define k where "k = z - MakeDay y m 1 + 1"
    have k: "1 \<le> k" "k \<le> d" using a md [of d] by (simp_all add: k_def)
    have z: "z = MakeDay y m k" using md [of k] by (simp add: k_def)
    have "k \<le> daysInMonth (leapDay y) m" using k assms(4) by simp
    from civil_of_MakeDay [OF assms(1,2) k(1) this] k(2)
    show "YearFromDay z = y \<and> MonthFromDay z = m \<and> DateFromDay z \<le> d"
      by (simp add: z)
  next
    assume a: "YearFromDay z = y \<and> MonthFromDay z = m \<and> DateFromDay z \<le> d"
    then have "z = MakeDay y m 1 + DateFromDay z - 1" using bk by simp
    moreover have "1 \<le> DateFromDay z" using civil_valid [of z] by simp
    ultimately show "MakeDay y m 1 \<le> z \<and> z \<le> MakeDay y m d"
      using a md [of d] by simp
  qed
qed

lemma window_iff:
  assumes y: "\<not> (0 \<le> y \<and> y \<le> 99)"
    and m: "0 \<le> m" "m \<le> 11" and d: "1 \<le> d" "d \<le> daysInMonth (leapDay y) m"
  shows "(newDate tz y m 1 0 0 0 \<le> t \<and> t \<le> newDate tz y m d 23 59 59)
           \<longleftrightarrow> withinMonthThrough tz y m d t"
proof -
  define L where "L = t + tz"
  define z r where "z = L div 86400000" and "r = L mod 86400000"
  have L: "L = z * 86400000 + r" and r: "0 \<le> r" "r < 86400000"
    by (simp_all add: z_def r_def)
  define A where "A = MakeDay y m 1"
  have B: "MakeDay y m d = A + d - 1" by (simp add: MakeDay_month m A_def)
  have s: "newDate tz y m 1 0 0 0 \<le> t \<longleftrightarrow> A \<le> z"
  proof -
    have "newDate tz y m 1 0 0 0 \<le> t \<longleftrightarrow> A * 86400000 \<le> z * 86400000 + r"
      unfolding newDate_eq [OF y] A_def [symmetric] L [symmetric] by (simp add: L_def) linarith
    also have "\<dots> \<longleftrightarrow> A \<le> z" using r by auto
    finally show ?thesis .
  qed
  have e: "t \<le> newDate tz y m d 23 59 59
             \<longleftrightarrow> z < A + d - 1 \<or> (z = A + d - 1 \<and> r \<le> 86399000)"
  proof -
    have "t \<le> newDate tz y m d 23 59 59
            \<longleftrightarrow> z * 86400000 + r \<le> (A + d - 1) * 86400000 + 86399000"
      unfolding newDate_eq [OF y] B L [symmetric] by (simp add: L_def) linarith
    also have "\<dots> \<longleftrightarrow> z < A + d - 1 \<or> (z = A + d - 1 \<and> r \<le> 86399000)"
      using r by auto
    finally show ?thesis .
  qed
  have g: "getFullYear tz t = YearFromDay z" "getMonth tz t = MonthFromDay z"
    "getDate tz t = DateFromDay z" "msOfLocalDay tz t = r"
    by (simp_all add: getFullYear_def getMonth_def getDate_def msOfLocalDay_def Day_def
        LocalTime_def z_def r_def L_def)
  note w = days_window [OF m d, of z, unfolded A_def [symmetric] B]
  show ?thesis
  proof
    assume a: "newDate tz y m 1 0 0 0 \<le> t \<and> t \<le> newDate tz y m d 23 59 59"
    then have 1: "A \<le> z" and 2: "z < A + d - 1 \<or> (z = A + d - 1 \<and> r \<le> 86399000)"
      using s e by simp_all
    then have "A \<le> z \<and> z \<le> A + d - 1" by auto
    then have c: "YearFromDay z = y" "MonthFromDay z = m" "DateFromDay z \<le> d"
      using w(1) by simp_all
    from w(2) [OF c(1,2)] have "z = A + DateFromDay z - 1" .
    with 2 have "DateFromDay z < d \<or> (DateFromDay z = d \<and> r \<le> 86399000)" by auto
    with c show "withinMonthThrough tz y m d t" by (simp add: withinMonthThrough_def g)
  next
    assume "withinMonthThrough tz y m d t"
    then have c: "YearFromDay z = y" "MonthFromDay z = m"
      and 2: "DateFromDay z < d \<or> (DateFromDay z = d \<and> r \<le> 86399000)"
      by (simp_all add: withinMonthThrough_def g)
    from w(2) [OF c] have z: "z = A + DateFromDay z - 1" .
    have "1 \<le> DateFromDay z" using civil_valid [of z] by simp
    with z have "A \<le> z" by simp
    moreover from z 2 have "z < A + d - 1 \<or> (z = A + d - 1 \<and> r \<le> 86399000)" by auto
    ultimately show "newDate tz y m 1 0 0 0 \<le> t \<and> t \<le> newDate tz y m d 23 59 59"
      using s e by simp
  qed
qed

lemma current_window_iff:
  assumes "100 < getFullYear tz now"
  shows "inWindow (currentWindow tz now) r
           \<longleftrightarrow> withinMonthThrough tz (getFullYear tz now) (getMonth tz now) (getDate tz now)
                 (checkinDateTime r)"
proof -
  note v = civil_valid [of "Day (LocalTime tz now)"]
  have "(newDate tz (getFullYear tz now) (getMonth tz now) 1 0 0 0 \<le> checkinDateTime r
          \<and> checkinDateTime r \<le> newDate tz (getFullYear tz now) (getMonth tz now)
                (getDate tz now) 23 59 59)
        \<longleftrightarrow> withinMonthThrough tz (getFullYear tz now) (getMonth tz now) (getDate tz now)
              (checkinDateTime r)"
    using assms v
    by (intro window_iff) (simp_all add: getFullYear_def getMonth_def getDate_def)
  then show ?thesis by (simp add: inWindow_def currentWindow_def Let_def)
qed

lemma previous_window_iff:
  assumes "100 < getFullYear tz now"
    and "getDate tz now
           \<le> daysInMonth (leapDay (fst (precedingMonth (getFullYear tz now, getMonth tz now))))
               (snd (precedingMonth (getFullYear tz now, getMonth tz now)))"
  shows "inWindow (previousWindow tz now) r
           \<longleftrightarrow> withinMonthThrough tz (fst (precedingMonth (getFullYear tz now, getMonth tz now)))
                 (snd (precedingMonth (getFullYear tz now, getMonth tz now))) (getDate tz now)
                 (checkinDateTime r)"
proof -
  define py pm where "py = fst (precedingMonth (getFullYear tz now, getMonth tz now))"
    and "pm = snd (precedingMonth (getFullYear tz now, getMonth tz now))"
  note v = civil_valid [of "Day (LocalTime tz now)"]
  have m: "0 \<le> getMonth tz now" "getMonth tz now \<le> 11" and d: "1 \<le> getDate tz now"
    using v by (simp_all add: getMonth_def getDate_def)
  have py: "\<not> (0 \<le> py \<and> py \<le> 99)" using assms(1) by (simp add: py_def precedingMonth_def)
  have pm: "0 \<le> pm" "pm \<le> 11" using m by (simp_all add: pm_def precedingMonth_def)
  have w: "previousWindow tz now
             = (newDate tz py pm 1 0 0 0, newDate tz py pm (getDate tz now) 23 59 59)"
    by (simp add: previousWindow_def Let_def py_def pm_def precedingMonth_def)
  have "(newDate tz py pm 1 0 0 0 \<le> checkinDateTime r
          \<and> checkinDateTime r \<le> newDate tz py pm (getDate tz now) 23 59 59)
        \<longleftrightarrow> withinMonthThrough tz py pm (getDate tz now) (checkinDateTime r)"
    using py pm d assms(2) by (intro window_iff) (simp_all add: py_def pm_def)
  then show ?thesis by (simp add: inWindow_def w py_def pm_def)
qed

text \<open>
  Claim C8 (amended). For every reference instant (in a local year after 100), the records
  of the current window are those whose check-in falls in the current local calendar month,
  from its first day through 23:59:59.000 of the current day of the month, whatever the time
  of day of the instant; the records of the reference window are those whose check-in falls
  in the preceding calendar month (December of the previous year when the current month is
  January), from its first day through 23:59:59.000 of the same day of the month, provided
  that month has that many days.
\<close>

theorem comparison_windows:
  assumes "100 < getFullYear tz now"
  shows "currentMonthRecords tz now rs
           = filter (\<lambda>r. withinMonthThrough tz (getFullYear tz now) (getMonth tz now)
                          (getDate tz now) (checkinDateTime r)) rs
       \<and> (getDate tz now
             \<le> daysInMonth (leapDay (fst (precedingMonth (getFullYear tz now, getMonth tz now))))
                 (snd (precedingMonth (getFullYear tz now, getMonth tz now)))
           \<longrightarrow> previousMonthRecords tz now rs
                 = filter (\<lambda>r. withinMonthThrough tz
                                (fst (precedingMonth (getFullYear tz now, getMonth tz now)))
                                (snd (precedingMonth (getFullYear tz now, getMonth tz now)))
                                (getDate tz now) (checkinDateTime r)) rs)"
  using current_window_iff [OF assms] previous_window_iff [OF assms]
  by (simp add: currentMonthRecords_def previousMonthRecords_def cong: filter_cong)

lemma now_example:
  "getFullYear 32400000 1711722822000 = 2024" "getMonth 32400000 1711722822000 = 2"
  "getDate 32400000 1711722822000 = 29"
  "currentWindow 32400000 1711722822000 = (1709218800000, 1711724399000)"
  "previousWindow 32400000 1711722822000 = (1706713200000, 1709218799000)"
  "precedingMonth (2024, 2) = (2024, 1)" "precedingMonth (2024, 0) = (2023, 11)"
  "daysInMonth (leapDay 2024) 1 = 29"
  by code_simp+

text \<open>A check-in one second after the reference instant, on the same day, belongs to the
  current window.\<close>

theorem comparison_windows_counterexample:
  "(1711722822000::int) < checkinDateTime (visitA\<lparr> checkinDateTime := 1711722823000 \<rparr>)
   \<and> currentMonthRecords 32400000 1711722822000 [visitA\<lparr> checkinDateTime := 1711722823000 \<rparr>]
       = [visitA\<lparr> checkinDateTime := 1711722823000 \<rparr>]"
  unfolding visitA_def by code_simp

text \<open>On 2024-03-31 the reference window ends with "February 31", which
  \<^verbatim>\<open>MakeDay\<close> carries to 2024-03-02 23:59:59, two days into the current window.\<close>

lemma reference_window_overflow_example:
  "getFullYear 32400000 1711854000000 = 2024" "getMonth 32400000 1711854000000 = 2"
  "getDate 32400000 1711854000000 = 31"
  "previousWindow 32400000 1711854000000 = (1706713200000, 1709391599000)"
  "currentWindow 32400000 1711854000000 = (1709218800000, 1711897199000)"
  by code_simp+

theorem comparison_windows_witness:
  "100 < getFullYear 32400000 1711722822000
   \<and> getDate 32400000 1711722822000
        \<le> daysInMonth
             (leapDay (fst (precedingMonth (getFullYear 32400000 1711722822000,
                                             getMonth 32400000 1711722822000))))
             (snd (precedingMonth (getFullYear 32400000 1711722822000,
                                   getMonth 32400000 1711722822000)))
   \<and> currentMonthRecords 32400000 1711722822000
        [visitA, visitC\<lparr> checkinDateTime := 1709130822000 \<rparr>] = [visitA]
   \<and> previousMonthRecords 32400000 1711722822000
        [visitA, visitC\<lparr> checkinDateTime := 1709130822000 \<rparr>]
        = [visitC\<lparr> checkinDateTime := 1709130822000 \<rparr>]
   \<and> currentMonthRecords 32400000 1711722822000
        [visitA, visitC\<lparr> checkinDateTime := 1709130822000 \<rparr>]
       = filter (\<lambda>r. withinMonthThrough 32400000 (getFullYear 32400000 1711722822000)
                      (getMonth 32400000 1711722822000) (getDate 32400000 1711722822000)
                      (checkinDateTime r))
           [visitA, visitC\<lparr> checkinDateTime := 1709130822000 \<rparr>]
   \<and> previousMonthRecords 32400000 1711722822000
        [visitA, visitC\<lparr> checkinDateTime := 1709130822000 \<rparr>]
       = filter (\<lambda>r. withinMonthThrough 32400000
                      (fst (precedingMonth (getFullYear 32400000 1711722822000,
                                            getMonth 32400000 1711722822000)))
                      (snd (precedingMonth (getFullYear 32400000 1711722822000,
                                            getMonth 32400000 1711722822000)))
                      (getDate 32400000 1711722822000) (checkinDateTime r))
           [visitA, visitC\<lparr> checkinDateTime := 1709130822000 \<rparr>]"
proof -
  have h: "100 < getFullYear 32400000 1711722822000" by code_simp
  have h2: "getDate 32400000 1711722822000
        \<le> daysInMonth
             (leapDay (fst (precedingMonth (getFullYear 32400000 1711722822000,
                                             getMonth 32400000 1711722822000))))
             (snd (precedingMonth (getFullYear 32400000 1711722822000,
                                   getMonth 32400000 1711722822000)))"
    by code_simp
  have c: "currentMonthRecords 32400000 1711722822000
        [visitA, visitC\<lparr> checkinDateTime := 1709130822000 \<rparr>] = [visitA]"
    unfolding visitA_def visitC_def by code_simp
  have p: "previousMonthRecords 32400000 1711722822000
        [visitA, visitC\<lparr> checkinDateTime := 1709130822000 \<rparr>]
        = [visitC\<lparr> checkinDateTime := 1709130822000 \<rparr>]"
    unfolding visitA_def visitC_def by code_simp
  note t = comparison_windows [OF h, of "[visitA, visitC\<lparr> checkinDateTime := 1709130822000 \<rparr>]"]
  from t h2 have t2: "previousMonthRecords 32400000 1711722822000
        [visitA, visitC\<lparr> checkinDateTime := 1709130822000 \<rparr>]
       = filter (\<lambda>r. withinMonthThrough 32400000
                      (fst (precedingMonth (getFullYear 32400000 1711722822000,
                                            getMonth 32400000 1711722822000)))
                      (snd (precedingMonth (getFullYear 32400000 1711722822000,
                                            getMonth 32400000 1711722822000)))
                      (getDate 32400000 1711722822000) (checkinDateTime r))
           [visitA, visitC\<lparr> checkinDateTime := 1709130822000 \<rparr>]"
    by (rule conjunct2 [THEN mp])
  from t have t1: "currentMonthRecords 32400000 1711722822000
        [visitA, visitC\<lparr> checkinDateTime := 1709130822000 \<rparr>]
       = filter (\<lambda>r. withinMonthThrough 32400000 (getFullYear 32400000 1711722822000)
                      (getMonth 32400000 1711722822000) (getDate 32400000 1711722822000)
                      (checkinDateTime r))
           [visitA, visitC\<lparr> checkinDateTime := 1709130822000 \<rparr>]"
    by (rule conjunct1)
  from h h2 c p t1 t2 show ?thesis by (intro conjI)
qed

text \<open>
  Claim C3 (amended). \<^verbatim>\<open>generateComparisonData\<close> takes the record set only and reads the
  clock itself. For a fixed record set, two runs whose first clock readings fall on the same
  local calendar date (year, month, day of the month) produce the same report, window
  boundaries included, apart from \<^verbatim>\<open>metadata.generatedAt\<close>, which is the second clock
  reading of each run.
\<close>

theorem comparison_same_day:
  assumes "getFullYear tz t1 = getFullYear tz t2" "getMonth tz t1 = getMonth tz t2"
    "getDate tz t1 = getDate tz t2"
  shows "generateComparisonData tz t1 g1 rs
           = (generateComparisonData tz t2 g2 rs)
               \<lparr> metadata := (metadata (generateComparisonData tz t2 g2 rs))
                                \<lparr> generatedAt := g1 \<rparr> \<rparr>"
proof -
  have w: "currentWindow tz t1 = currentWindow tz t2" "previousWindow tz t1 = previousWindow tz t2"
    by (simp_all add: currentWindow_def previousWindow_def assms)
  show ?thesis
    by (simp add: generateComparisonData_def Let_def currentMonthRecords_def
        previousMonthRecords_def w assms)
qed

theorem comparison_same_day_witness:
  "getFullYear 32400000 1711722822000 = getFullYear 32400000 1711722823000
   \<and> getMonth 32400000 1711722822000 = getMonth 32400000 1711722823000
   \<and> getDate 32400000 1711722822000 = getDate 32400000 1711722823000
   \<and> generateComparisonData 32400000 1711722822000 1711722822005 [visitA]
       = (generateComparisonData 32400000 1711722823000 1711722823007 [visitA])
           \<lparr> metadata := (metadata (generateComparisonData 32400000 1711722823000
                                       1711722823007 [visitA]))
                            \<lparr> generatedAt := 1711722822005 \<rparr> \<rparr>"
proof -
  have h: "getFullYear 32400000 1711722822000 = getFullYear 32400000 1711722823000"
    "getMonth 32400000 1711722822000 = getMonth 32400000 1711722823000"
    "getDate 32400000 1711722822000 = getDate 32400000 1711722823000"
    by code_simp+
  from h comparison_same_day [OF h, where ?g1.0 = 1711722822005 and ?g2.0 = 1711722823007
      and rs = "[visitA]"]
  show ?thesis by (intro conjI)
qed

lemma report_records:
  "records (currentMonth (generateComparisonData tz now g rs))
     = int (length (currentMonthRecords tz now rs))"
  by (simp add: generateComparisonData_def Let_def)

text \<open>The same record set, with the clock read on 2024-03-29 and on 2024-04-01: the visit
  is in the current window of the first run only.\<close>

theorem comparison_clock_counterexample:
  "records (currentMonth (generateComparisonData 32400000 1711722822000 1711722822000 [visitA])) = 1
   \<and> records (currentMonth (generateComparisonData 32400000 1711982022000 1711982022000 [visitA])) = 0
   \<and> generateComparisonData 32400000 1711722822000 1711722822000 [visitA]
       \<noteq> generateComparisonData 32400000 1711982022000 1711982022000 [visitA]"
proof -
  have a: "records (currentMonth
      (generateComparisonData 32400000 1711722822000 1711722822000 [visitA])) = 1"
    unfolding report_records visitA_def by code_simp
  have b: "records (currentMonth
      (generateComparisonData 32400000 1711982022000 1711982022000 [visitA])) = 0"
    unfolding report_records visitA_def by code_simp
  have "generateComparisonData 32400000 1711722822000 1711722822000 [visitA]
       \<noteq> generateComparisonData 32400000 1711982022000 1711982022000 [visitA]"
  proof
    assume "generateComparisonData 32400000 1711722822000 1711722822000 [visitA]
       = generateComparisonData 32400000 1711982022000 1711982022000 [visitA]"
    with a b show False by simp
  qed
  with a b show ?thesis by blast
qed

end
